theory Spec2Isabelle
  imports Main "HOL-Library.Multiset"
begin

section \<open>JavaScript values\<close>

text \<open>
  The parser (\<^verbatim>\<open>src/app/parser-instagram/index.ts\<close>) works on untyped values: the
  structured data scraped from a page and the JSON answers of two endpoints. A value is
  what \<^verbatim>\<open>JSON.parse\<close> can yield, plus \<^verbatim>\<open>undefined\<close>, which is what reading a missing
  property gives.

  \<^item> A number is represented by its canonical rendering, the text \<^verbatim>\<open>String(n)\<close> yields.
    The code never calculates with numbers: it tests them for truthiness, compares them
    with \<^verbatim>\<open>===\<close> and splices them into strings, and all three are functions of the
    rendering (\<^verbatim>\<open>0\<close> and \<^verbatim>\<open>-0\<close> both render as \<^verbatim>\<open>0\<close>).
  \<^item> An object is the list of its own properties; a lookup takes the first binding of
    a name.
  \<^item> A string is a list of characters. The code concatenates strings, compares them and
    tests them for emptiness.
\<close>

datatype json =
    JUndefined
  | JNull
  | JBool bool
  | JNum string
  | JStr string
  | JArr "json list"
  | JObj "(string \<times> json) list"

text \<open>
  A \<^verbatim>\<open>throw\<close> is a result value. \<open>TypeError\<close> is what the runtime raises on reading a
  property of \<^verbatim>\<open>undefined\<close> or \<^verbatim>\<open>null\<close>, on iterating a value that is not iterable and
  on calling what is not a function; \<open>Error m\<close> is \<^verbatim>\<open>new Error(m)\<close>, and also stands for
  whatever a collaborator (navigation, the in-page fetch) rejects with.
\<close>

datatype error = TypeError | Error string

definition and_then :: "error + 'a \<Rightarrow> ('a \<Rightarrow> error + 'b) \<Rightarrow> error + 'b" where
  "and_then m f = (case m of Inl e \<Rightarrow> Inl e | Inr v \<Rightarrow> f v)"

text \<open>Truthiness, as \<^verbatim>\<open>if (v)\<close>, \<^verbatim>\<open>!!v\<close> and \<^verbatim>\<open>v || w\<close> test it.\<close>

fun truthy :: "json \<Rightarrow> bool" where
  "truthy JUndefined = False"
| "truthy JNull = False"
| "truthy (JBool b) = b"
| "truthy (JNum r) = (r \<noteq> ''0'' \<and> r \<noteq> ''NaN'')"
| "truthy (JStr s) = (s \<noteq> [])"
| "truthy (JArr xs) = True"
| "truthy (JObj kvs) = True"

text \<open>The values \<^verbatim>\<open>?.\<close> and \<^verbatim>\<open>??\<close> treat as missing.\<close>

fun nullish :: "json \<Rightarrow> bool" where
  "nullish JUndefined = True"
| "nullish JNull = True"
| "nullish v = False"

subsection \<open>Property reads\<close>

text \<open>
  Arrays and strings answer to \<^verbatim>\<open>length\<close> and to canonical index names (\<^verbatim>\<open>"0"\<close>,
  \<^verbatim>\<open>"17"\<close>, not \<^verbatim>\<open>"017"\<close>).
\<close>

definition digit_chars :: "string" where
  "digit_chars = ''0123456789''"

fun show_nat :: "nat \<Rightarrow> string" where
  "show_nat n =
     (if n < 10 then [digit_chars ! n]
      else show_nat (n div 10) @ [digit_chars ! (n mod 10)])"

fun index_of :: "char \<Rightarrow> string \<Rightarrow> nat" where
  "index_of c [] = 0"
| "index_of c (d # ds) = (if c = d then 0 else Suc (index_of c ds))"

fun digits_value :: "nat \<Rightarrow> string \<Rightarrow> nat" where
  "digits_value acc [] = acc"
| "digits_value acc (c # cs) = digits_value (10 * acc + index_of c digit_chars) cs"

definition parse_index :: "string \<Rightarrow> nat option" where
  "parse_index k =
     (if k \<noteq> [] \<and> list_all (\<lambda>c. c \<in> set digit_chars) k \<and> (k = ''0'' \<or> hd k \<noteq> CHR ''0'')
      then Some (digits_value 0 k) else None)"

definition array_prop :: "json list \<Rightarrow> string \<Rightarrow> json" where
  "array_prop xs k =
     (if k = ''length'' then JNum (show_nat (length xs))
      else case parse_index k of
             Some i \<Rightarrow> if i < length xs then xs ! i else JUndefined
           | None \<Rightarrow> JUndefined)"

definition string_prop :: "string \<Rightarrow> string \<Rightarrow> json" where
  "string_prop s k =
     (if k = ''length'' then JNum (show_nat (length s))
      else case parse_index k of
             Some i \<Rightarrow> if i < length s then JStr [s ! i] else JUndefined
           | None \<Rightarrow> JUndefined)"

text \<open>
  \<open>get_prop v k\<close> is \<^verbatim>\<open>v.k\<close> and \<^verbatim>\<open>v[k]\<close>: a \<open>TypeError\<close> on \<^verbatim>\<open>undefined\<close> and \<^verbatim>\<open>null\<close>,
  \<^verbatim>\<open>undefined\<close> for a name the value does not have. Properties inherited from the built-in
  prototypes are functions (or, for \<^verbatim>\<open>__proto__\<close>, the prototype itself), not JSON
  values, and none of the fixed names the parser reads is inherited. The one computed
  name is the user id in \<^verbatim>\<open>data.reels[userId]\<close> (line 205), whose result is read for its
  \<^verbatim>\<open>user.full_name\<close> at once: an inherited property has no \<^verbatim>\<open>user\<close>, so that the
  statement raises the \<open>TypeError\<close> that it raises here, where such a name reads as
  \<^verbatim>\<open>undefined\<close>.
\<close>

fun get_prop :: "json \<Rightarrow> string \<Rightarrow> error + json" where
  "get_prop JUndefined k = Inl TypeError"
| "get_prop JNull k = Inl TypeError"
| "get_prop (JObj kvs) k = Inr (case map_of kvs k of Some v \<Rightarrow> v | None \<Rightarrow> JUndefined)"
| "get_prop (JArr xs) k = Inr (array_prop xs k)"
| "get_prop (JStr s) k = Inr (string_prop s k)"
| "get_prop (JBool b) k = Inr JUndefined"
| "get_prop (JNum r) k = Inr JUndefined"

text \<open>The value a property read yields where it does not raise; used to state properties.\<close>

definition dot :: "json \<Rightarrow> string \<Rightarrow> json" where
  "dot v k = (case get_prop v k of Inr x \<Rightarrow> x | Inl e \<Rightarrow> JUndefined)"

text \<open>
  What \<^verbatim>\<open>for (const x of v)\<close> and the spread \<^verbatim>\<open>...v\<close> visit: the elements of an array, the
  characters of a string (each a one-character string), and a \<open>TypeError\<close> for every
  other value. JavaScript iterates a string by code point, so that a character outside
  the Basic Multilingual Plane is one element there; every element is a non-empty string
  either way, which is all the parser can observe of it.
\<close>

fun iterate :: "json \<Rightarrow> error + json list" where
  "iterate (JArr xs) = Inr xs"
| "iterate (JStr s) = Inr (map (\<lambda>c. JStr [c]) s)"
| "iterate v = Inl TypeError"

subsection \<open>String conversion and strict equality\<close>

fun join_comma :: "string list \<Rightarrow> string" where
  "join_comma [] = []"
| "join_comma [s] = s"
| "join_comma (s # t # ts) = s @ '','' @ join_comma (t # ts)"

text \<open>
  \<open>to_string v\<close> is what a template literal \<^verbatim>\<open>`${v}`\<close> and a computed property name make
  of \<open>v\<close>. An array is the join of its elements, \<^verbatim>\<open>undefined\<close> and \<^verbatim>\<open>null\<close> counting
  as empty. An object is converted by its \<^verbatim>\<open>toString\<close>: the inherited one gives
  \<^verbatim>\<open>[object Object]\<close>, and an own property of that name, which in parsed JSON is never a
  function, leaves no way to a primitive (the inherited \<^verbatim>\<open>valueOf\<close> returns the object
  itself, an own one is no function either), so that the conversion raises a \<open>TypeError\<close>.
\<close>

fun to_string :: "json \<Rightarrow> error + string"
  and to_strings :: "json list \<Rightarrow> error + string list" where
  "to_string JUndefined = Inr ''undefined''"
| "to_string JNull = Inr ''null''"
| "to_string (JBool b) = Inr (if b then ''true'' else ''false'')"
| "to_string (JNum r) = Inr r"
| "to_string (JStr s) = Inr s"
| "to_string (JArr xs) =
     (case to_strings xs of Inl e \<Rightarrow> Inl e | Inr ss \<Rightarrow> Inr (join_comma ss))"
| "to_string (JObj kvs) =
     (case map_of kvs ''toString'' of
        Some v \<Rightarrow> Inl TypeError
      | None \<Rightarrow> Inr ''[object Object]'')"
| "to_strings [] = Inr []"
| "to_strings (x # xs) =
     (case (if nullish x then Inr [] else to_string x) of
        Inl e \<Rightarrow> Inl e
      | Inr s \<Rightarrow> (case to_strings xs of Inl e \<Rightarrow> Inl e | Inr ss \<Rightarrow> Inr (s # ss)))"

text \<open>
  \<^verbatim>\<open>v === w\<close>. Objects and arrays are equal only to themselves; the two sides of the one
  comparison in the parser (line 208) come from two different documents, the endpoint's
  answer and the page's data, so that two objects or arrays are never the same there.
\<close>

fun strict_eq :: "json \<Rightarrow> json \<Rightarrow> bool" where
  "strict_eq JUndefined JUndefined = True"
| "strict_eq JNull JNull = True"
| "strict_eq (JBool a) (JBool b) = (a = b)"
| "strict_eq (JNum a) (JNum b) = (a = b \<and> a \<noteq> ''NaN'')"
| "strict_eq (JStr a) (JStr b) = (a = b)"
| "strict_eq v w = False"

section \<open>Media Normalizer\<close>

text \<open>
  Lines 223--245: \<^verbatim>\<open>processMedia\<close> pushes onto the array \<^verbatim>\<open>media\<close> of the enclosing
  function; here it takes the array and returns it extended. A descriptor
  \<^verbatim>\<open>{ type, url }\<close> is \<open>Descriptor type url\<close>; the url is whatever value the record holds
  under \<^verbatim>\<open>url\<close>.
\<close>

datatype descriptor = Descriptor string json

text \<open>
  What \<^verbatim>\<open>processMedia\<close> decides for one item before it pushes or descends (lines
  226--240): the three truthiness tests in their order, the reads of the first variant's
  \<^verbatim>\<open>url\<close>, and the children the \<^verbatim>\<open>for ... of\<close> loop will visit.
\<close>

datatype action = Push descriptor | Each "json list" | Skip

definition itemAction :: "json \<Rightarrow> error + action" where
  "itemAction item =
     and_then (get_prop item ''video_versions'') (\<lambda>video_versions.
       if truthy video_versions then
         and_then (get_prop video_versions ''0'') (\<lambda>v0.
         and_then (get_prop v0 ''url'') (\<lambda>u.
         Inr (Push (Descriptor ''video'' u))))
       else
         and_then (get_prop item ''image_versions2'') (\<lambda>image_versions2.
         if truthy image_versions2 then
           and_then (get_prop image_versions2 ''candidates'') (\<lambda>candidates.
           and_then (get_prop candidates ''0'') (\<lambda>c0.
           and_then (get_prop c0 ''url'') (\<lambda>u.
           Inr (Push (Descriptor ''photo'' u)))))
         else
           and_then (get_prop item ''carousel_media'') (\<lambda>carousel_media.
           if truthy carousel_media then
             and_then (iterate carousel_media) (\<lambda>children. Inr (Each children))
           else Inr Skip)))"

text \<open>The children of a carousel are smaller than the record that holds them.\<close>

lemma map_of_size:
  "map_of kvs k = Some v \<Longrightarrow> size v < Suc (size_list (size_prod (\<lambda>_. 0) size) kvs)"
  by (induction kvs) (auto split: if_splits)

lemma noindex_props [simp]:
  "array_prop xs ''video_versions'' = JUndefined"
  "array_prop xs ''image_versions2'' = JUndefined"
  "array_prop xs ''carousel_media'' = JUndefined"
  "string_prop s ''video_versions'' = JUndefined"
  "string_prop s ''image_versions2'' = JUndefined"
  "string_prop s ''carousel_media'' = JUndefined"
  by (simp_all add: array_prop_def string_prop_def parse_index_def digit_chars_def)

lemma itemAction_Each_cases:
  assumes "itemAction item = Inr (Each children)"
  obtains kvs cm where "item = JObj kvs" "map_of kvs ''carousel_media'' = Some cm"
    "iterate cm = Inr children"
proof (cases item)
  case (JObj kvs)
  with assms show ?thesis
    using that
    by (auto simp: itemAction_def and_then_def split: sum.splits if_splits option.splits)
qed (use assms in \<open>auto simp: itemAction_def and_then_def split: sum.splits if_splits\<close>)

lemma size_elem: "c \<in> set cs \<Longrightarrow> size (c::json) < Suc (size_list size cs)"
  by (induction cs) auto

lemma itemAction_Each_size:
  assumes "itemAction item = Inr (Each children)" and "c \<in> set children"
  shows "size c < size item"
proof -
  from assms(1) obtain kvs cm where item: "item = JObj kvs"
    and cm: "map_of kvs ''carousel_media'' = Some cm" and it: "iterate cm = Inr children"
    by (rule itemAction_Each_cases)
  have "size cm < size item" using map_of_size [OF cm] item by simp
  moreover have "size c \<le> size cm"
  proof (cases cm)
    case (JArr xs)
    with it assms(2) show ?thesis using size_elem [of c xs] by auto
  next
    case (JStr s)
    with it assms(2) show ?thesis by auto
  qed (use it in auto)
  ultimately show ?thesis by simp
qed

lemma foldr_max_less:
  "\<forall>c \<in> set cs. size c < n \<Longrightarrow> 0 < n \<Longrightarrow> foldr max (map size cs) 0 < (n::nat)"
  by (induction cs) auto

text \<open>
  \<open>processMedia\<close> is lines 225--241; \<open>processEach\<close> is the loop \<^verbatim>\<open>for (const x of xs)
  processMedia(x)\<close>, which the source writes twice: over the children of a carousel (lines
  237--239) and over \<^verbatim>\<open>rawMedia\<close> (lines 243--245). A \<^verbatim>\<open>throw\<close> ends the loop and whatever
  was pushed is lost with the call.
\<close>

function processMedia :: "json \<Rightarrow> descriptor list \<Rightarrow> error + descriptor list"
  and processEach :: "json list \<Rightarrow> descriptor list \<Rightarrow> error + descriptor list" where
  "processMedia item media =
     (case itemAction item of
        Inl e \<Rightarrow> Inl e
      | Inr (Push d) \<Rightarrow> Inr (media @ [d])
      | Inr (Each children) \<Rightarrow> processEach children media
      | Inr Skip \<Rightarrow> Inr media)"
| "processEach [] media = Inr media"
| "processEach (item # rest) media =
     (case processMedia item media of
        Inl e \<Rightarrow> Inl e
      | Inr media' \<Rightarrow> processEach rest media')"
  by pat_completeness auto
termination
proof (relation "measures
    [\<lambda>x. case x of Inl (item, media) \<Rightarrow> size item
               | Inr (cs, media) \<Rightarrow> foldr max (map size cs) 0,
     \<lambda>x. case x of Inl (item, media) \<Rightarrow> 0 | Inr (cs, media) \<Rightarrow> Suc (length cs)]", goal_cases)
  case 1
  show ?case by simp
next
  case (2 item media x children)
  then have act: "itemAction item = Inr (Each children)" by simp
  then have "\<forall>c \<in> set children. size c < size item"
    using itemAction_Each_size by blast
  moreover have "0 < size item"
    using act by (auto elim: itemAction_Each_cases)
  ultimately have "foldr max (map size children) 0 < size item"
    by (rule foldr_max_less)
  then show ?case by simp
next
  case 3
  show ?case by auto
next
  case 4
  show ?case by auto
qed

declare processMedia.simps [simp del]

text \<open>Lines 223 and 243--245: the array starts empty and every fetched record is processed in turn.\<close>

definition flatten :: "json list \<Rightarrow> error + descriptor list" where
  "flatten rawMedia = processEach rawMedia []"

subsection \<open>The normalizer as the specification words it\<close>

text \<open>
  The specification describes the normalizer as a pure function: a record yields one video
  descriptor, else one photo descriptor, else the concatenation of what its children
  yield, in order, else nothing. \<open>depthFirstLeaves\<close> is that function, with the shape of a
  record read as \<open>itemAction\<close> reads it; \<open>readable\<close> says that no read in the tree raises.
\<close>

function depthFirstLeaves :: "json \<Rightarrow> descriptor list" where
  "depthFirstLeaves item =
     (case itemAction item of
        Inr (Push d) \<Rightarrow> [d]
      | Inr (Each children) \<Rightarrow> concat (map depthFirstLeaves children)
      | _ \<Rightarrow> [])"
  by pat_completeness auto
termination
  by (relation "measure size") (auto intro: itemAction_Each_size)

function readable :: "json \<Rightarrow> bool" where
  "readable item =
     (case itemAction item of
        Inl e \<Rightarrow> False
      | Inr (Each children) \<Rightarrow> list_all readable children
      | Inr _ \<Rightarrow> True)"
  by pat_completeness auto
termination
  by (relation "measure size") (auto intro: itemAction_Each_size)

declare depthFirstLeaves.simps [simp del] readable.simps [simp del]

text \<open>A run that started with \<open>media\<close> already in the array, given what it would add to an empty one.\<close>

definition appended :: "descriptor list \<Rightarrow> error + descriptor list \<Rightarrow> error + descriptor list" where
  "appended media r = (case r of Inl e \<Rightarrow> Inl e | Inr ds \<Rightarrow> Inr (media @ ds))"

section \<open>Content Resolver\<close>

subsection \<open>Collaborators\<close>

text \<open>
  \<^verbatim>\<open>lodash.get(object, path, defaultValue)\<close> is library code. It is modelled after the
  library: the value at the end of the path, \<^verbatim>\<open>undefined\<close> as soon as an intermediate value
  is \<^verbatim>\<open>undefined\<close> or \<^verbatim>\<open>null\<close> or when the path is empty, and the default in place of
  \<^verbatim>\<open>undefined\<close>. How the library splits a path string into names is a parameter,
  \<open>castPath\<close>.
\<close>

fun baseGet :: "json \<Rightarrow> string list \<Rightarrow> json" where
  "baseGet object [] = object"
| "baseGet object (key # keys) =
     (case get_prop object key of Inl e \<Rightarrow> JUndefined | Inr v \<Rightarrow> baseGet v keys)"

definition lodash_get ::
  "(string \<Rightarrow> json \<Rightarrow> string list) \<Rightarrow> json \<Rightarrow> string \<Rightarrow> json \<Rightarrow> json" where
  "lodash_get castPath object path defaultValue =
     (let result =
        (if nullish object then JUndefined
         else case castPath path object of [] \<Rightarrow> JUndefined | keys \<Rightarrow> baseGet object keys)
      in if result = JUndefined then defaultValue else result)"

text \<open>
  A loaded page, as far as \<^verbatim>\<open>computeForLink\<close> uses it: \<open>details\<close> is the flattened list of
  the \<^verbatim>\<open>require\<close> arrays of its script payloads (lines 127--135), and \<open>fetch u\<close> is what the
  in-page request for the address \<open>u\<close> (lines 162--176 and 189--203, always with the same
  headers) resolves to, or is rejected with.
\<close>

record page =
  details :: json
  fetch :: "string \<Rightarrow> error + json"

text \<open>
  What \<^verbatim>\<open>computeForLink\<close> takes from outside the file: the two searchers built by
  \<^verbatim>\<open>makeSearcher\<close> (\<^verbatim>\<open>utils/objectSearch.js\<close>), each returning the array of its matches; the
  library's path splitting; and the browser, where \<open>newPage link\<close> is the page that
  \<^verbatim>\<open>browser.newPage()\<close>, \<^verbatim>\<open>page.goto(link)\<close> and the script extraction give, or the error
  one of them fails with. Logging and the deferred \<^verbatim>\<open>page.close()\<close> do not change the
  result and are left out.
\<close>

record deps =
  findPostData :: "json \<Rightarrow> json list"
  findStoryData :: "json \<Rightarrow> json list"
  castPath :: "string \<Rightarrow> json \<Rightarrow> string list"
  newPage :: "string \<Rightarrow> error + page"

text \<open>The returned object \<^verbatim>\<open>{ title, url, media }\<close> (lines 251--255).\<close>

datatype resolved = Resolved json json "descriptor list"

text \<open>\<^verbatim>\<open>xs[ 0 ]\<close> on the array a searcher returns (lines 143 and 144).\<close>

definition first :: "json list \<Rightarrow> json" where
  "first xs = (case xs of [] \<Rightarrow> JUndefined | x # rest \<Rightarrow> x)"

subsection \<open>The per-link computation\<close>

text \<open>Line 155: \<^verbatim>\<open>postData?.meta.title ?? null\<close>. Only \<^verbatim>\<open>postData\<close> itself is guarded.\<close>

definition initialTitle :: "json \<Rightarrow> error + json" where
  "initialTitle postData =
     (if nullish postData then Inr JNull
      else and_then (get_prop postData ''meta'') (\<lambda>meta.
           and_then (get_prop meta ''title'') (\<lambda>t.
           Inr (if nullish t then JNull else t))))"

text \<open>
  Lines 159--182. The result is the triple of \<^verbatim>\<open>title\<close>, \<^verbatim>\<open>url\<close> and \<^verbatim>\<open>rawMedia\<close> as they
  stand at the \<^verbatim>\<open>break\<close>.
\<close>

definition postBranch :: "page \<Rightarrow> json \<Rightarrow> json \<Rightarrow> error + json \<times> json \<times> json list" where
  "postBranch page postData title =
     and_then (get_prop postData ''url'') (\<lambda>u.
     and_then (to_string u) (\<lambda>path.
     and_then (get_prop postData ''rootView'') (\<lambda>rootView.
     and_then (get_prop rootView ''props'') (\<lambda>props.
     and_then (get_prop props ''media_id'') (\<lambda>media_id.
     and_then (to_string media_id) (\<lambda>mid.
     and_then (fetch page (''https://i.instagram.com/api/v1/media/'' @ mid @ ''/info/'')) (\<lambda>data.
     and_then (get_prop data ''items'') (\<lambda>items.
     and_then (iterate items) (\<lambda>rawMedia.
     Inr (title, JStr (''https://www.instagram.com'' @ path), rawMedia))))))))))"

text \<open>
  Lines 207--209: \<^verbatim>\<open>.find(item => item.pk === storyData.params.initial_media_id)\<close>. The
  callback reads both sides anew for every item it is given; \<^verbatim>\<open>find\<close> is a method of
  arrays only.
\<close>

fun find_item :: "json list \<Rightarrow> json \<Rightarrow> error + json" where
  "find_item [] storyData = Inr JUndefined"
| "find_item (item # rest) storyData =
     and_then (get_prop item ''pk'') (\<lambda>pk.
     and_then (get_prop storyData ''params'') (\<lambda>params.
     and_then (get_prop params ''initial_media_id'') (\<lambda>initial_media_id.
     if strict_eq pk initial_media_id then Inr item else find_item rest storyData)))"

definition array_find :: "json \<Rightarrow> json \<Rightarrow> error + json" where
  "array_find v storyData =
     (case v of JArr xs \<Rightarrow> find_item xs storyData | _ \<Rightarrow> Inl TypeError)"

text \<open>
  Line 205: \<^verbatim>\<open>data.reels[ userId ].user.full_name || data.reels[ userId ].user.username ||
  null\<close>. The second chain is read only when the first name is falsy. \<open>key\<close> is the user
  id as a property name: the conversion is the one line 202 has already made of it for
  the request, and gives the same string again.
\<close>

definition storyTitle :: "json \<Rightarrow> string \<Rightarrow> error + json" where
  "storyTitle data key =
     and_then (get_prop data ''reels'') (\<lambda>reels.
     and_then (get_prop reels key) (\<lambda>reel.
     and_then (get_prop reel ''user'') (\<lambda>user.
     and_then (get_prop user ''full_name'') (\<lambda>full_name.
     if truthy full_name then Inr full_name
     else
       and_then (get_prop data ''reels'') (\<lambda>reels.
       and_then (get_prop reels key) (\<lambda>reel.
       and_then (get_prop reel ''user'') (\<lambda>user.
       and_then (get_prop user ''username'') (\<lambda>username.
       Inr (if truthy username then username else JNull)))))))))"

text \<open>Lines 184--216.\<close>

definition storyBranch :: "deps \<Rightarrow> page \<Rightarrow> json \<Rightarrow> error + json \<times> json \<times> json list" where
  "storyBranch d page storyData =
     and_then (get_prop storyData ''url'') (\<lambda>u.
     and_then (to_string u) (\<lambda>path.
     and_then (get_prop storyData ''rootView'') (\<lambda>rootView.
     and_then (get_prop rootView ''props'') (\<lambda>props.
     and_then (get_prop props ''user'') (\<lambda>user.
     and_then (get_prop user ''id'') (\<lambda>userId.
     and_then (to_string userId) (\<lambda>key.
     and_then (fetch page
        (''https://i.instagram.com/api/v1/feed/reels_media/?reel_ids='' @ key)) (\<lambda>data.
     and_then (storyTitle data key) (\<lambda>title.
     and_then (array_find
        (lodash_get (castPath d) data (''reels.'' @ key @ ''.items'') (JArr [])) storyData) (\<lambda>reel.
     Inr (title, JStr (''https://www.instagram.com'' @ path),
          if truthy reel then [reel] else [])))))))))))"

text \<open>
  Lines 142--221: the two descriptors, the title, and the \<^verbatim>\<open>switch (true)\<close>, whose cases
  are tried in the order written.
\<close>

definition resolveRaw :: "deps \<Rightarrow> page \<Rightarrow> error + json \<times> json \<times> json list" where
  "resolveRaw d page =
     (let postData = first (findPostData d (details page));
          storyData = first (findStoryData d (details page))
      in and_then (initialTitle postData) (\<lambda>title.
         if truthy postData then postBranch page postData title
         else if truthy storyData then storyBranch d page storyData
         else Inl (Error ''Unhandled page type'')))"

text \<open>Lines 115--256.\<close>

definition computeForLink :: "deps \<Rightarrow> string \<Rightarrow> error + resolved" where
  "computeForLink d link =
     and_then (newPage d link) (\<lambda>page.
     and_then (resolveRaw d page) (\<lambda>(title, url, rawMedia).
     and_then (flatten rawMedia) (\<lambda>media.
     if length media = 0 then Inl (Error ''No media found'')
     else Inr (Resolved title url media))))"

section \<open>Batch Runner\<close>

text \<open>
  Modelled from the spec: \<^verbatim>\<open>processRequests\<close> (\<^verbatim>\<open>resolvers/lib.js\<close>), which lines 258--264
  call with the resolver and \<^verbatim>\<open>concurrency: 4\<close>, is not among the sources. Section 4.4 of
  the specification describes it: items wait in a queue; at most \<open>N\<close> invocations of the
  per-item function are active; when one settles, with a value or with a failure, its
  outcome is recorded for its item and the next queued item may be dispatched; the run is
  complete once every item has settled.

  A state holds the items not yet dispatched, the items whose invocation is active, and the
  outcomes recorded so far. The per-item function is the map from an item to the outcome
  its invocation settles with. The interleaving is left open: any active invocation may
  settle next, and a free slot may be filled at any time.
\<close>

record ('a, 'r) runner =
  queue :: "'a list"
  active :: "'a list"
  outcomes :: "('a \<times> (error + 'r)) list"

definition start :: "'a list \<Rightarrow> ('a, 'r) runner" where
  "start items = \<lparr>queue = items, active = [], outcomes = []\<rparr>"

definition complete :: "('a, 'r) runner \<Rightarrow> bool" where
  "complete s = (queue s = [] \<and> active s = [])"

inductive step :: "nat \<Rightarrow> ('a \<Rightarrow> error + 'r) \<Rightarrow> ('a, 'r) runner \<Rightarrow> ('a, 'r) runner \<Rightarrow> bool"
  for N :: nat and fn :: "'a \<Rightarrow> error + 'r" where
  dispatch: "queue s = x # rest \<Longrightarrow> length (active s) < N \<Longrightarrow>
     step N fn s (s\<lparr>queue := rest, active := active s @ [x]\<rparr>)"
| settle: "x \<in> set (active s) \<Longrightarrow>
     step N fn s (s\<lparr>active := remove1 x (active s), outcomes := outcomes s @ [(x, fn x)]\<rparr>)"

inductive reachable :: "nat \<Rightarrow> ('a \<Rightarrow> error + 'r) \<Rightarrow> 'a list \<Rightarrow> ('a, 'r) runner \<Rightarrow> bool"
  for N :: nat and fn :: "'a \<Rightarrow> error + 'r" and items :: "'a list" where
  initial: "reachable N fn items (start items)"
| advance: "reachable N fn items s \<Longrightarrow> step N fn s s' \<Longrightarrow> reachable N fn items s'"

text \<open>Lines 258--264: the configured limit.\<close>

definition concurrency :: nat where
  "concurrency = 4"

section \<open>Example pages\<close>

text \<open>
  Concrete collaborators on which the properties below are exercised: a searcher that
  looks through the top-level entries of the page's data, a path splitter that cuts at
  dots, two endpoint answers, and a browser that knows five links.
\<close>

definition exampleSearcher :: "string \<Rightarrow> json \<Rightarrow> json list" where
  "exampleSearcher policy v =
     (case v of JArr xs \<Rightarrow> filter (\<lambda>x. dot x ''tracePolicy'' = JStr policy) xs | _ \<Rightarrow> [])"

fun split_dots :: "string \<Rightarrow> string list" where
  "split_dots [] = [[]]"
| "split_dots (c # cs) =
     (if c = CHR ''.'' then [] # split_dots cs
      else case split_dots cs of w # ws \<Rightarrow> (c # w) # ws | [] \<Rightarrow> [[c]])"

definition imageRecord :: "string \<Rightarrow> json" where
  "imageRecord u =
     JObj [(''image_versions2'', JObj [(''candidates'', JArr [JObj [(''url'', JStr u)]])])]"

definition postDescriptor :: json where
  "postDescriptor = JObj
     [(''tracePolicy'', JStr ''polaris.postPage''),
      (''url'', JStr ''/p/abc/''),
      (''meta'', JObj [(''title'', JStr ''A post'')]),
      (''rootView'', JObj [(''props'', JObj [(''media_id'', JStr ''123'')])])]"

definition storyDescriptor :: json where
  "storyDescriptor = JObj
     [(''tracePolicy'', JStr ''polaris.StoriesPage''),
      (''url'', JStr ''/stories/ab/99/''),
      (''params'', JObj [(''initial_media_id'', JStr ''99'')]),
      (''rootView'', JObj [(''props'', JObj [(''user'', JObj [(''id'', JStr ''u1'')])])])]"

definition storyItem :: json where
  "storyItem = JObj [(''pk'', JStr ''99''),
                     (''video_versions'', JArr [JObj [(''url'', JStr ''v.mp4'')]])]"

definition storyReel :: json where
  "storyReel = JObj
     [(''user'', JObj [(''full_name'', JStr ''A B''), (''username'', JStr ''ab'')]),
      (''items'', JArr [JObj [(''pk'', JStr ''98''),
                              (''image_versions2'',
                               JObj [(''candidates'', JArr [JObj [(''url'', JStr ''s.jpg'')]])])],
                        storyItem])]"

definition storyResponse :: json where
  "storyResponse = JObj [(''reels'', JObj [(''u1'', storyReel)])]"

definition exampleFetch :: "json list \<Rightarrow> string \<Rightarrow> error + json" where
  "exampleFetch items u =
     (if u = ''https://i.instagram.com/api/v1/media/123/info/''
      then Inr (JObj [(''items'', JArr items)])
      else if u = ''https://i.instagram.com/api/v1/feed/reels_media/?reel_ids=u1''
      then Inr storyResponse
      else Inl (Error ''Failed to fetch''))"

definition postPage :: page where
  "postPage = \<lparr>details = JArr [JStr ''other'', postDescriptor],
               fetch = exampleFetch [imageRecord ''a.jpg'']\<rparr>"

definition storyPage :: page where
  "storyPage = \<lparr>details = JArr [storyDescriptor], fetch = exampleFetch []\<rparr>"

definition bothPage :: page where
  "bothPage = \<lparr>details = JArr [storyDescriptor, postDescriptor],
               fetch = exampleFetch [imageRecord ''a.jpg'']\<rparr>"

definition emptyPostPage :: page where
  "emptyPostPage = \<lparr>details = JArr [postDescriptor], fetch = exampleFetch []\<rparr>"

definition profilePage :: page where
  "profilePage = \<lparr>details = JArr [JStr ''other''], fetch = exampleFetch []\<rparr>"

text \<open>A post descriptor with further properties, and the page that holds it alone.\<close>

definition postDescriptorWith :: "(string \<times> json) list \<Rightarrow> json" where
  "postDescriptorWith extra = JObj
     ([(''tracePolicy'', JStr ''polaris.postPage''),
       (''url'', JStr ''/p/abc/''),
       (''rootView'', JObj [(''props'', JObj [(''media_id'', JStr ''123'')])])] @ extra)"

definition postPageOf :: "json \<Rightarrow> page" where
  "postPageOf descriptor =
     \<lparr>details = JArr [descriptor], fetch = exampleFetch [imageRecord ''a.jpg'']\<rparr>"

text \<open>A story page whose endpoint gives the answer \<open>response\<close>, and an answer with one reel.\<close>

definition storyPageOf :: "json \<Rightarrow> page" where
  "storyPageOf response =
     \<lparr>details = JArr [storyDescriptor],
      fetch = (\<lambda>u. if u = ''https://i.instagram.com/api/v1/feed/reels_media/?reel_ids=u1''
                   then Inr response else Inl (Error ''Failed to fetch''))\<rparr>"

definition reelResponse :: "(string \<times> json) list \<Rightarrow> json" where
  "reelResponse reel = JObj [(''reels'', JObj [(''u1'', JObj reel)])]"

definition exampleBrowser :: "string \<Rightarrow> error + page" where
  "exampleBrowser link =
     (if link = ''post'' then Inr postPage
      else if link = ''story'' then Inr storyPage
      else if link = ''both'' then Inr bothPage
      else if link = ''empty post'' then Inr emptyPostPage
      else if link = ''profile'' then Inr profilePage
      else Inl (Error ''net::ERR_NAME_NOT_RESOLVED''))"

definition exampleDeps :: deps where
  "exampleDeps =
     \<lparr>findPostData = exampleSearcher ''polaris.postPage'',
      findStoryData = exampleSearcher ''polaris.StoriesPage'',
      castPath = (\<lambda>path object. split_dots path),
      newPage = exampleBrowser\<rparr>"

text \<open>The same collaborators with a browser that opens one given page for every link.\<close>

definition depsFor :: "page \<Rightarrow> deps" where
  "depsFor page = exampleDeps\<lparr>newPage := (\<lambda>link. Inr page)\<rparr>"

section \<open>Properties of the Media Normalizer\<close>

lemma appended_simps [simp]:
  "appended media (Inl e) = Inl e"
  "appended media (Inr ds) = Inr (media @ ds)"
  by (simp_all add: appended_def)

lemma appended_appended: "appended m (appended ds r) = appended (m @ ds) r"
  by (cases r) simp_all

text \<open>
  Neither function reads the array it extends: a run from \<open>m\<close> is the run from the empty
  array with \<open>m\<close> in front. The induction follows the two functions' own recursion.
\<close>

lemma process_acc_aux:
  fixes item :: json and items :: "json list"
  shows "\<forall>m. processMedia item m = appended m (processMedia item [])"
    and "\<forall>m. processEach items m = appended m (processEach items [])"
proof -
  let ?I = "\<lambda>item (_::descriptor list). \<forall>m. processMedia item m = appended m (processMedia item [])"
  let ?L = "\<lambda>items (_::descriptor list). \<forall>m. processEach items m = appended m (processEach items [])"
  have step1: "?I item media"
    if ih: "\<And>b x2. itemAction item = Inr b \<Longrightarrow> b = Each x2 \<Longrightarrow> ?L x2 media" for item media
  proof
    fix m
    show "processMedia item m = appended m (processMedia item [])"
    proof (cases "itemAction item")
      case (Inl e)
      then show ?thesis by (simp add: processMedia.simps)
    next
      case (Inr a)
      show ?thesis
      proof (cases a)
        case (Push d)
        with Inr show ?thesis by (simp add: processMedia.simps)
      next
        case (Each children)
        with Inr ih have "processEach children m = appended m (processEach children [])"
          by blast
        with Inr Each show ?thesis by (simp add: processMedia.simps)
      next
        case Skip
        with Inr show ?thesis by (simp add: processMedia.simps)
      qed
    qed
  qed
  have step2: "?L [] media" for media
    by simp
  have step3: "?L (item # rest) media"
    if p: "?I item media" and q: "\<And>b. processMedia item media = Inr b \<Longrightarrow> ?L rest b"
    for item rest media
  proof (cases "processMedia item []")
    case (Inl e)
    with p have "processMedia item m = Inl e" for m
      by (metis appended_simps(1))
    then show ?thesis
      by simp
  next
    case (Inr ds)
    with p have run: "processMedia item m = Inr (m @ ds)" for m
      by (metis appended_simps(2))
    from q [OF run] have rest: "processEach rest m = appended m (processEach rest [])" for m
      by blast
    show ?thesis
    proof
      fix m
      have "processEach (item # rest) m = processEach rest (m @ ds)"
        using run by simp
      also have "\<dots> = appended (m @ ds) (processEach rest [])"
        by (rule rest)
      also have "\<dots> = appended m (appended ds (processEach rest []))"
        by (simp only: appended_appended)
      also have "appended ds (processEach rest []) = processEach rest ds"
        by (rule rest [symmetric])
      also have "processEach rest ds = processEach (item # rest) []"
        using Inr by simp
      finally show "processEach (item # rest) m = appended m (processEach (item # rest) [])" .
    qed
  qed
  show "\<forall>m. processMedia item m = appended m (processMedia item [])"
    by (rule processMedia_processEach.induct(1)
        [where P = ?I and Q = ?L and ?a0.0 = item and ?a1.0 = "[]"])
      (fact step1 step2 step3)+
  show "\<forall>m. processEach items m = appended m (processEach items [])"
    by (rule processMedia_processEach.induct(2)
        [where P = ?I and Q = ?L and ?a2.0 = items and ?a3.0 = "[]"])
      (fact step1 step2 step3)+
qed

lemma processEach_acc: "processEach items media = appended media (flatten items)"
  unfolding flatten_def using process_acc_aux(2) [of items] by blast

lemma processMedia_acc: "processMedia item media = appended media (processMedia item [])"
  using process_acc_aux(1) [of item] by blast

lemma processEach_append:
  "processEach (xs @ ys) media =
     (case processEach xs media of Inl e \<Rightarrow> Inl e | Inr media' \<Rightarrow> processEach ys media')"
  by (induction xs arbitrary: media) (auto split: sum.splits)

lemma get_prop_error: "get_prop v k = Inl e \<Longrightarrow> e = TypeError"
  by (cases v) simp_all

lemma iterate_error: "iterate v = Inl e \<Longrightarrow> e = TypeError"
  by (cases v) simp_all

lemma itemAction_error: "itemAction item = Inl e \<Longrightarrow> e = TypeError"
  by (auto simp: itemAction_def and_then_def split: sum.splits if_splits
      dest: get_prop_error iterate_error)

text \<open>The imperative traversal against the pure one, again along the functions' recursion.\<close>

lemma flatten_char_aux:
  fixes item :: json and items :: "json list"
  shows "processMedia item [] =
      (if readable item then Inr (depthFirstLeaves item) else Inl TypeError)"
    and "processEach items [] =
      (if list_all readable items then Inr (concat (map depthFirstLeaves items))
       else Inl TypeError)"
proof -
  let ?I = "\<lambda>item (_::descriptor list).
    processMedia item [] = (if readable item then Inr (depthFirstLeaves item) else Inl TypeError)"
  let ?L = "\<lambda>items (_::descriptor list). processEach items [] =
      (if list_all readable items then Inr (concat (map depthFirstLeaves items))
       else Inl TypeError)"
  have step1: "?I item media"
    if ih: "\<And>b x2. itemAction item = Inr b \<Longrightarrow> b = Each x2 \<Longrightarrow> ?L x2 media"
    for item and media :: "descriptor list"
  proof (cases "itemAction item")
    case (Inl e)
    then have "e = TypeError" by (rule itemAction_error)
    with Inl show ?thesis
      by (simp add: processMedia.simps readable.simps [of item])
  next
    case (Inr a)
    show ?thesis
    proof (cases a)
      case (Push d)
      with Inr show ?thesis
        by (simp add: processMedia.simps readable.simps [of item] depthFirstLeaves.simps [of item])
    next
      case (Each children)
      with Inr ih have "?L children media" by blast
      with Inr Each show ?thesis
        by (simp add: processMedia.simps readable.simps [of item] depthFirstLeaves.simps [of item])
    next
      case Skip
      with Inr show ?thesis
        by (simp add: processMedia.simps readable.simps [of item] depthFirstLeaves.simps [of item])
    qed
  qed
  have step2: "?L [] media" for media :: "descriptor list"
    by simp
  have step3: "?L (item # rest) media"
    if p: "?I item media" and q: "\<And>b. processMedia item media = Inr b \<Longrightarrow> ?L rest b"
    for item rest and media :: "descriptor list"
  proof (cases "readable item")
    case False
    with p show ?thesis by simp
  next
    case True
    with p have one: "processMedia item [] = Inr (depthFirstLeaves item)" by simp
    then have "processMedia item media = Inr (media @ depthFirstLeaves item)"
      using processMedia_acc [of item media] by simp
    from q [OF this] have rest: "?L rest media" .
    have "processEach (item # rest) [] = processEach rest (depthFirstLeaves item)"
      using one by simp
    also have "\<dots> = appended (depthFirstLeaves item) (processEach rest [])"
      by (rule processEach_acc [unfolded flatten_def])
    finally show ?thesis
      using rest True by simp
  qed
  show "?I item []"
    by (rule processMedia_processEach.induct(1)
        [where P = ?I and Q = ?L and ?a0.0 = item and ?a1.0 = "[]"])
      (fact step1 step2 step3)+
  show "?L items []"
    by (rule processMedia_processEach.induct(2)
        [where P = ?I and Q = ?L and ?a2.0 = items and ?a3.0 = "[]"])
      (fact step1 step2 step3)+
qed

lemma truthy_not_nullish: "truthy v \<Longrightarrow> \<not> nullish v"
  by (cases v) simp_all

lemma get_prop_dot: "\<not> nullish v \<Longrightarrow> get_prop v k = Inr (dot v k)"
  by (cases v) (simp_all add: dot_def)

lemma itemAction_video:
  assumes "\<not> nullish item" and "truthy (dot item ''video_versions'')"
    and "\<not> nullish (dot (dot item ''video_versions'') ''0'')"
  shows "itemAction item =
    Inr (Push (Descriptor ''video'' (dot (dot (dot item ''video_versions'') ''0'') ''url'')))"
proof -
  have "\<not> nullish (dot item ''video_versions'')"
    using assms(2) by (simp add: truthy_not_nullish)
  then show ?thesis
    using assms by (simp add: itemAction_def and_then_def get_prop_dot)
qed

lemma itemAction_photo:
  assumes "\<not> nullish item" and "\<not> truthy (dot item ''video_versions'')"
    and "truthy (dot item ''image_versions2'')"
    and "\<not> nullish (dot (dot item ''image_versions2'') ''candidates'')"
    and "\<not> nullish (dot (dot (dot item ''image_versions2'') ''candidates'') ''0'')"
  shows "itemAction item = Inr (Push (Descriptor ''photo''
    (dot (dot (dot (dot item ''image_versions2'') ''candidates'') ''0'') ''url'')))"
proof -
  have "\<not> nullish (dot item ''image_versions2'')"
    using assms(3) by (simp add: truthy_not_nullish)
  then show ?thesis
    using assms by (simp add: itemAction_def and_then_def get_prop_dot)
qed

lemma itemAction_skip:
  assumes "\<not> nullish item" and "\<not> truthy (dot item ''video_versions'')"
    and "\<not> truthy (dot item ''image_versions2'')"
    and "\<not> truthy (dot item ''carousel_media'')"
  shows "itemAction item = Inr Skip"
  using assms by (simp add: itemAction_def and_then_def get_prop_dot)

lemmas eval_simps =
  processMedia.simps itemAction_def and_then_def dot_def array_prop_def string_prop_def
  parse_index_def digit_chars_def

text \<open>
  C1, as amended. Priority video, then image, then carousel. An item that is not
  \<^verbatim>\<open>null\<close> or \<^verbatim>\<open>undefined\<close>, whose \<^verbatim>\<open>video_versions\<close> is truthy and has a first element that
  is neither missing nor \<^verbatim>\<open>null\<close>, adds exactly one descriptor, of type \<^verbatim>\<open>video\<close>, with the
  \<^verbatim>\<open>url\<close> of that first variant, whatever else the record carries (an image-variant list,
  carousel children). An item without video variants whose \<^verbatim>\<open>image_versions2\<close> has
  \<^verbatim>\<open>candidates\<close> with a first element adds exactly one descriptor, of type \<^verbatim>\<open>photo\<close>,
  whether or not it has carousel children.
\<close>

theorem priority_video_image_carousel:
  "(\<not> nullish item \<and> truthy (dot item ''video_versions'')
      \<and> \<not> nullish (dot (dot item ''video_versions'') ''0'')
    \<longrightarrow> processMedia item media = Inr (media @
          [Descriptor ''video'' (dot (dot (dot item ''video_versions'') ''0'') ''url'')]))
   \<and> (\<not> nullish item \<and> \<not> truthy (dot item ''video_versions'')
      \<and> truthy (dot item ''image_versions2'')
      \<and> \<not> nullish (dot (dot item ''image_versions2'') ''candidates'')
      \<and> \<not> nullish (dot (dot (dot item ''image_versions2'') ''candidates'') ''0'')
    \<longrightarrow> processMedia item media = Inr (media @ [Descriptor ''photo''
          (dot (dot (dot (dot item ''image_versions2'') ''candidates'') ''0'') ''url'')]))"
  by (simp add: processMedia.simps itemAction_video itemAction_photo)

text \<open>
  A record with both a video-variant list and an image-variant list, and a record with
  both an image-variant list and carousel children.
\<close>

theorem priority_video_image_carousel_witness:
  "processMedia
     (JObj [(''video_versions'', JArr [JObj [(''url'', JStr ''v.mp4'')]]),
            (''image_versions2'', JObj [(''candidates'', JArr [JObj [(''url'', JStr ''a.jpg'')]])])])
     [] = Inr [Descriptor ''video'' (JStr ''v.mp4'')]
   \<and> processMedia
     (JObj [(''image_versions2'', JObj [(''candidates'', JArr [JObj [(''url'', JStr ''a.jpg'')]])]),
            (''carousel_media'', JArr [JObj [(''video_versions'', JArr [JObj [(''url'', JStr ''v.mp4'')]])]])])
     [] = Inr [Descriptor ''photo'' (JStr ''a.jpg'')]"
  using
    priority_video_image_carousel [of
      "JObj [(''video_versions'', JArr [JObj [(''url'', JStr ''v.mp4'')]]),
             (''image_versions2'', JObj [(''candidates'', JArr [JObj [(''url'', JStr ''a.jpg'')]])])]"
      "[]"]
    priority_video_image_carousel [of
      "JObj [(''image_versions2'', JObj [(''candidates'', JArr [JObj [(''url'', JStr ''a.jpg'')]])]),
             (''carousel_media'', JArr [JObj [(''video_versions'', JArr [JObj [(''url'', JStr ''v.mp4'')]])]])]"
      "[]"]
  by (simp add: dot_def array_prop_def parse_index_def digit_chars_def)

text \<open>
  C1 as first stated fails on a record whose video-variant list is empty: the list is
  truthy, its first element is \<^verbatim>\<open>undefined\<close>, and reading \<^verbatim>\<open>url\<close> of it (line 229) raises,
  although the record carries an image-variant list with a candidate.
\<close>

theorem empty_video_list_counterexample:
  "dot (JObj [(''video_versions'', JArr []),
              (''image_versions2'', JObj [(''candidates'', JArr [JObj [(''url'', JStr ''a.jpg'')]])])])
       ''video_versions'' = JArr []
   \<and> flatten [JObj [(''video_versions'', JArr []),
              (''image_versions2'', JObj [(''candidates'', JArr [JObj [(''url'', JStr ''a.jpg'')]])])]]
     = Inl TypeError"
  by (simp add: flatten_def eval_simps)

text \<open>
  C2. Flattening yields the descriptors of the leaves in depth-first, left-to-right
  order: the result is the concatenation, in order, of what each record yields, and a
  carousel yields the concatenation, in order, of what its children yield
  (\<open>depthFirstLeaves\<close>), provided every record read on the way has a shape the reads
  accept; otherwise the run raises a \<open>TypeError\<close>. In particular a record with an image leaf
  and a video leaf as carousel children flattens to the photo followed by the video.
\<close>

theorem flatten_depth_first:
  "flatten items =
     (if list_all readable items then Inr (concat (map depthFirstLeaves items))
      else Inl TypeError)
   \<and> flatten [JObj [(''carousel_media'', JArr
        [JObj [(''image_versions2'', JObj [(''candidates'', JArr [JObj [(''url'', a)]])])],
         JObj [(''video_versions'', JArr [JObj [(''url'', v)]])]])]]
     = Inr [Descriptor ''photo'' a, Descriptor ''video'' v]"
proof
  show "flatten items =
     (if list_all readable items then Inr (concat (map depthFirstLeaves items))
      else Inl TypeError)"
    unfolding flatten_def by (rule flatten_char_aux(2))
  show "flatten [JObj [(''carousel_media'', JArr
        [JObj [(''image_versions2'', JObj [(''candidates'', JArr [JObj [(''url'', a)]])])],
         JObj [(''video_versions'', JArr [JObj [(''url'', v)]])]])]]
     = Inr [Descriptor ''photo'' a, Descriptor ''video'' v]"
    by (simp add: flatten_def eval_simps)
qed

text \<open>A carousel nested in a carousel, between two leaves: the order is that of the leaves.\<close>

theorem flatten_depth_first_witness:
  "flatten
     [JObj [(''video_versions'', JArr [JObj [(''url'', JStr ''1.mp4'')]])],
      JObj [(''carousel_media'', JArr
        [JObj [(''carousel_media'', JArr
           [JObj [(''image_versions2'', JObj [(''candidates'', JArr [JObj [(''url'', JStr ''2.jpg'')]])])]])],
         JObj [(''video_versions'', JArr [JObj [(''url'', JStr ''3.mp4'')]])]])],
      JObj [(''image_versions2'', JObj [(''candidates'', JArr [JObj [(''url'', JStr ''4.jpg'')]])])]]
   = Inr [Descriptor ''video'' (JStr ''1.mp4''), Descriptor ''photo'' (JStr ''2.jpg''),
          Descriptor ''video'' (JStr ''3.mp4''), Descriptor ''photo'' (JStr ''4.jpg'')]"
  using flatten_depth_first [of
     "[JObj [(''video_versions'', JArr [JObj [(''url'', JStr ''1.mp4'')]])],
      JObj [(''carousel_media'', JArr
        [JObj [(''carousel_media'', JArr
           [JObj [(''image_versions2'', JObj [(''candidates'', JArr [JObj [(''url'', JStr ''2.jpg'')]])])]])],
         JObj [(''video_versions'', JArr [JObj [(''url'', JStr ''3.mp4'')]])]])],
      JObj [(''image_versions2'', JObj [(''candidates'', JArr [JObj [(''url'', JStr ''4.jpg'')]])])]]"]
  by (simp add: readable.simps depthFirstLeaves.simps itemAction_def and_then_def
      array_prop_def parse_index_def digit_chars_def)

text \<open>
  C7. A record of unrecognized shape (an item that is not \<^verbatim>\<open>null\<close> or \<^verbatim>\<open>undefined\<close> and has
  no truthy \<^verbatim>\<open>video_versions\<close>, \<^verbatim>\<open>image_versions2\<close> or \<^verbatim>\<open>carousel_media\<close>) adds nothing and raises
  nothing, and the records before and after it are processed as if it were not there.
\<close>

theorem unrecognized_skipped:
  assumes "\<not> nullish item" and "\<not> truthy (dot item ''video_versions'')"
    and "\<not> truthy (dot item ''image_versions2'')"
    and "\<not> truthy (dot item ''carousel_media'')"
  shows "processMedia item media = Inr media
    \<and> processEach (before @ item # after) media = processEach (before @ after) media"
proof -
  have one: "processMedia item m = Inr m" for m
    using itemAction_skip [OF assms] by (simp add: processMedia.simps)
  have "processEach (before @ item # after) media = processEach (before @ after) media"
    by (simp add: processEach_append one split: sum.splits)
  with one show ?thesis by simp
qed

theorem unrecognized_skipped_witness:
  "processMedia (JObj [(''id'', JStr ''17'')]) [] = Inr []
   \<and> processEach
       ([JObj [(''video_versions'', JArr [JObj [(''url'', JStr ''v.mp4'')]])]]
        @ JObj [(''id'', JStr ''17'')]
        # [JObj [(''image_versions2'', JObj [(''candidates'', JArr [JObj [(''url'', JStr ''a.jpg'')]])])]])
       []
     = Inr [Descriptor ''video'' (JStr ''v.mp4''), Descriptor ''photo'' (JStr ''a.jpg'')]"
proof -
  have "processEach
       ([JObj [(''video_versions'', JArr [JObj [(''url'', JStr ''v.mp4'')]])]]
        @ [JObj [(''image_versions2'', JObj [(''candidates'', JArr [JObj [(''url'', JStr ''a.jpg'')]])])]])
       []
     = Inr [Descriptor ''video'' (JStr ''v.mp4''), Descriptor ''photo'' (JStr ''a.jpg'')]"
    by (simp add: eval_simps)
  then show ?thesis
    using unrecognized_skipped [of "JObj [(''id'', JStr ''17'')]" "[]"
      "[JObj [(''video_versions'', JArr [JObj [(''url'', JStr ''v.mp4'')]])]]"
      "[JObj [(''image_versions2'', JObj [(''candidates'', JArr [JObj [(''url'', JStr ''a.jpg'')]])])]]"]
    by (simp add: dot_def)
qed

text \<open>
  C8. Normalization is a function of the record trees alone. The only state the
  traversal touches is the array it pushes onto, and it never reads it: whatever the
  array holds at the start, the run raises the same error or appends the same
  descriptors in the same order, namely those of \<open>flatten\<close>, which starts from the empty
  array as line 223 does. Nothing else (no clock, no random source, no outer variable)
  is read in lines 223--245.
\<close>

theorem flatten_stateless:
  "processEach items media =
     (case flatten items of Inl e \<Rightarrow> Inl e | Inr ds \<Rightarrow> Inr (media @ ds))"
  using processEach_acc [of items media] by (simp add: appended_def)

theorem flatten_stateless_witness:
  "processEach [JObj [(''video_versions'', JArr [JObj [(''url'', JStr ''v.mp4'')]])]]
      [Descriptor ''photo'' (JStr ''a.jpg'')]
   = Inr [Descriptor ''photo'' (JStr ''a.jpg''), Descriptor ''video'' (JStr ''v.mp4'')]"
  using flatten_stateless [of "[JObj [(''video_versions'', JArr [JObj [(''url'', JStr ''v.mp4'')]])]]"
      "[Descriptor ''photo'' (JStr ''a.jpg'')]"]
  by (simp add: flatten_def eval_simps)

section \<open>Properties of the Batch Runner\<close>

lemma reachable_bound: "reachable N fn items s \<Longrightarrow> length (active s) \<le> N"
proof (induction rule: reachable.induct)
  case initial
  show ?case by (simp add: start_def)
next
  case (advance s s')
  from advance.hyps(2) advance.IH show ?case
    by (cases rule: step.cases) (auto simp: length_remove1)
qed

lemma step_conserved:
  assumes "step N fn s s'"
  shows "mset (queue s') + mset (active s') + mset (map fst (outcomes s'))
    = mset (queue s) + mset (active s) + mset (map fst (outcomes s))"
  using assms
proof (cases rule: step.cases)
  case (dispatch x rest)
  then show ?thesis by simp
next
  case (settle x)
  then have "x \<in># mset (active s)"
    by simp
  then have "add_mset x (mset (active s) - {#x#}) = mset (active s)"
    by (rule insert_DiffM)
  with settle show ?thesis
    by simp
qed

lemma reachable_conserved:
  "reachable N fn items s \<Longrightarrow>
     mset (queue s) + mset (active s) + mset (map fst (outcomes s)) = mset items"
proof (induction rule: reachable.induct)
  case initial
  show ?case by (simp add: start_def)
next
  case (advance s s')
  then show ?case using step_conserved [of N fn s s'] by simp
qed

lemma reachable_outcomes:
  "reachable N fn items s \<Longrightarrow> list_all (\<lambda>(x, r). r = fn x) (outcomes s)"
proof (induction rule: reachable.induct)
  case initial
  show ?case by (simp add: start_def)
next
  case (advance s s')
  from advance.hyps(2) advance.IH show ?case
    by (cases rule: step.cases) auto
qed

lemma complete_outcomes:
  assumes "reachable N fn items s" and "complete s"
  shows "mset (map fst (outcomes s)) = mset items" and "length (outcomes s) = length items"
proof -
  show m: "mset (map fst (outcomes s)) = mset items"
    using reachable_conserved [OF assms(1)] assms(2) by (simp add: complete_def)
  have "length (outcomes s) = size (mset (map fst (outcomes s)))"
    by simp
  also have "\<dots> = length items"
    unfolding m by simp
  finally show "length (outcomes s) = length items" .
qed

lemma progress:
  assumes "0 < N" and "\<not> complete s"
  shows "\<exists>s'. step N fn s s'"
proof (cases "active s")
  case Nil
  with assms(2) obtain x rest where "queue s = x # rest"
    by (auto simp: complete_def neq_Nil_conv)
  with Nil assms(1) show ?thesis
    by (auto intro!: step.dispatch [of s x rest N] exI)
next
  case (Cons x xs)
  then have "x \<in> set (active s)" by simp
  then show ?thesis by (blast intro: step.settle)
qed

lemma step_measure:
  assumes "step N fn s s'"
  shows "2 * length (queue s') + length (active s') < 2 * length (queue s) + length (active s)"
  using assms
  by (cases rule: step.cases) (auto simp: length_remove1 dest: length_pos_if_in_set)

lemma step_keeps_siblings:
  assumes "step N fn s s'" and "y \<in> set (active s)"
  shows "y \<in> set (active s') \<or> (y, fn y) \<in> set (outcomes s')"
  using assms
proof (cases rule: step.cases)
  case (dispatch x rest)
  with assms(2) show ?thesis by simp
next
  case (settle x)
  with assms(2) show ?thesis
    by (cases "y = x") simp_all
qed

text \<open>Every run can be continued to completion: each step lowers a measure.\<close>

lemma completes:
  assumes "0 < N" and "reachable N fn items s"
  shows "\<exists>s'. reachable N fn items s' \<and> complete s'"
  using assms(2)
proof (induction "2 * length (queue s) + length (active s)" arbitrary: s rule: less_induct)
  case less
  show ?case
  proof (cases "complete s")
    case True
    with less.prems show ?thesis by blast
  next
    case False
    with assms(1) obtain s' where st: "step N fn s s'"
      using progress by blast
    then have "reachable N fn items s'"
      using less.prems by (blast intro: reachable.advance)
    with less.hyps [OF step_measure [OF st]] show ?thesis .
  qed
qed

text \<open>A run over two items: both are dispatched, then the first settles, then the second.\<close>

lemma run_two:
  assumes "2 \<le> N"
  shows "reachable N fn [a, b] \<lparr>queue = [], active = [], outcomes = [(a, fn a), (b, fn b)]\<rparr>"
proof -
  have s0: "reachable N fn [a, b] \<lparr>queue = [a, b], active = [], outcomes = []\<rparr>"
    using reachable.initial [of N fn "[a, b]"] by (simp add: start_def)
  have "step N fn \<lparr>queue = [a, b], active = [], outcomes = []\<rparr>
      \<lparr>queue = [b], active = [a], outcomes = []\<rparr>"
    using assms step.dispatch [of "\<lparr>queue = [a, b], active = [], outcomes = []\<rparr>" a "[b]" N fn]
    by simp
  with s0 have s1: "reachable N fn [a, b] \<lparr>queue = [b], active = [a], outcomes = []\<rparr>"
    by (rule reachable.advance)
  have "step N fn \<lparr>queue = [b], active = [a], outcomes = []\<rparr>
      \<lparr>queue = [], active = [a, b], outcomes = []\<rparr>"
    using assms step.dispatch [of "\<lparr>queue = [b], active = [a], outcomes = []\<rparr>" b "[]" N fn]
    by simp
  with s1 have s2: "reachable N fn [a, b] \<lparr>queue = [], active = [a, b], outcomes = []\<rparr>"
    by (rule reachable.advance)
  have "step N fn \<lparr>queue = [], active = [a, b], outcomes = []\<rparr>
      \<lparr>queue = [], active = [b], outcomes = [(a, fn a)]\<rparr>"
    using step.settle [of a "\<lparr>queue = [], active = [a, b], outcomes = []\<rparr>" N fn]
    by simp
  with s2 have s3: "reachable N fn [a, b] \<lparr>queue = [], active = [b], outcomes = [(a, fn a)]\<rparr>"
    by (rule reachable.advance)
  have "step N fn \<lparr>queue = [], active = [b], outcomes = [(a, fn a)]\<rparr>
      \<lparr>queue = [], active = [], outcomes = [(a, fn a), (b, fn b)]\<rparr>"
    using step.settle [of b "\<lparr>queue = [], active = [b], outcomes = [(a, fn a)]\<rparr>" N fn]
    by simp
  with s3 show ?thesis
    by (rule reachable.advance)
qed

text \<open>
  C9. In every state a run over \<open>items\<close> with limit \<open>N\<close> can reach: at most \<open>N\<close>
  invocations are active; every item is waiting, active or settled, exactly once; every
  recorded outcome is the one its own item's invocation settles with, a failure like a
  value; a step, whether it settles an invocation with a failure or with a value, leaves
  every other active invocation active (or records its own outcome), so that a failure
  cancels nothing; when nothing is waiting or active there are exactly as many outcomes as
  items, one for each; before that the run can always take a step; and the run can be
  continued to such a state.
\<close>

theorem batch_runner_bounded:
  assumes "0 < N" and "reachable N fn items s"
  shows "length (active s) \<le> N
    \<and> mset (queue s) + mset (active s) + mset (map fst (outcomes s)) = mset items
    \<and> list_all (\<lambda>(x, r). r = fn x) (outcomes s)
    \<and> (\<forall>s' y. step N fn s s' \<and> y \<in> set (active s)
          \<longrightarrow> y \<in> set (active s') \<or> (y, fn y) \<in> set (outcomes s'))
    \<and> (complete s \<longrightarrow> length (outcomes s) = length items
          \<and> mset (map fst (outcomes s)) = mset items)
    \<and> (\<not> complete s \<longrightarrow> (\<exists>s'. step N fn s s'))
    \<and> (\<exists>s'. reachable N fn items s' \<and> complete s')"
  using assms reachable_bound [OF assms(2)] reachable_conserved [OF assms(2)]
    reachable_outcomes [OF assms(2)] complete_outcomes [OF assms(2)]
    progress [OF assms(1), of s fn] completes [OF assms]
  by (blast dest: step_keeps_siblings)

text \<open>
  The configured limit of 4 on two links, one of which fails: at the start a step is
  possible, and the completed run holds both outcomes.
\<close>

theorem batch_runner_bounded_witness:
  "(\<exists>s'. step concurrency (\<lambda>link. if link = ''bad'' then Inl (Error ''No media found'') else Inr link)
          (start [''bad'', ''good'']) s')
   \<and> reachable concurrency (\<lambda>link. if link = ''bad'' then Inl (Error ''No media found'') else Inr link)
        [''bad'', ''good'']
        \<lparr>queue = [], active = [],
         outcomes = [(''bad'', Inl (Error ''No media found'')), (''good'', Inr ''good'')]\<rparr>
   \<and> length (outcomes \<lparr>queue = [], active = ([] :: string list),
         outcomes = [(''bad'', Inl (Error ''No media found'')), (''good'', Inr ''good'')]\<rparr>)
       = length [''bad'', ''good'']"
proof -
  let ?fn = "\<lambda>link. if link = ''bad'' then Inl (Error ''No media found'') else Inr link"
  let ?end = "\<lparr>queue = [], active = ([] :: string list),
         outcomes = [(''bad'', Inl (Error ''No media found'')), (''good'', Inr ''good'')]\<rparr>"
  have pos: "0 < concurrency"
    by (simp add: concurrency_def)
  have r0: "reachable concurrency ?fn [''bad'', ''good''] (start [''bad'', ''good''])"
    by (rule reachable.initial)
  have r1: "reachable concurrency ?fn [''bad'', ''good''] ?end"
    using run_two [of concurrency ?fn "''bad''" "''good''"] by (simp add: concurrency_def)
  have "\<not> complete (start [''bad'', ''good''] :: (string, string) runner)"
    by (simp add: complete_def start_def)
  moreover have "complete ?end"
    by (simp add: complete_def)
  ultimately show ?thesis
    using batch_runner_bounded [OF pos r0] batch_runner_bounded [OF pos r1] r1
    by blast
qed

section \<open>Properties of the Content Resolver\<close>

lemma and_then_Inr: "and_then m f = Inr r \<longleftrightarrow> (\<exists>v. m = Inr v \<and> f v = Inr r)"
  by (cases m) (simp_all add: and_then_def)

lemma and_then_simps [simp]:
  "and_then (Inl e) f = Inl e"
  "and_then (Inr v) f = f v"
  by (simp_all add: and_then_def)

lemma initialTitle_total:
  assumes "\<not> nullish postData" and "\<not> nullish (dot postData ''meta'')"
  shows "initialTitle postData =
    Inr (if nullish (dot (dot postData ''meta'') ''title'') then JNull
         else dot (dot postData ''meta'') ''title'')"
  using assms by (simp add: initialTitle_def get_prop_dot)

lemma resolveRaw_post:
  assumes "truthy (first (findPostData d (details page)))"
  shows "resolveRaw d page =
    and_then (initialTitle (first (findPostData d (details page))))
      (postBranch page (first (findPostData d (details page))))"
  using assms by (simp add: resolveRaw_def Let_def cong: if_cong)

lemma computeForLink_Inr:
  assumes "computeForLink d link = Inr (Resolved t u m)"
  obtains page rawMedia where "newPage d link = Inr page"
    and "resolveRaw d page = Inr (t, u, rawMedia)" and "flatten rawMedia = Inr m" and "m \<noteq> []"
  using assms
  by (auto simp: computeForLink_def and_then_Inr split: if_splits)

lemma unhandled:
  assumes "newPage d link = Inr page"
    and "findPostData d (details page) = []" and "findStoryData d (details page) = []"
  shows "computeForLink d link = Inl (Error ''Unhandled page type'')"
  using assms by (simp add: computeForLink_def resolveRaw_def first_def initialTitle_def)






lemmas example_simps =
  exampleDeps_def exampleBrowser_def exampleFetch_def exampleSearcher_def postDescriptor_def
  storyDescriptor_def storyItem_def storyReel_def storyResponse_def imageRecord_def
  postPage_def storyPage_def bothPage_def emptyPostPage_def profilePage_def
  postDescriptorWith_def postPageOf_def storyPageOf_def reelResponse_def depsFor_def

lemmas resolver_simps =
  computeForLink_def resolveRaw_def first_def initialTitle_def postBranch_def storyBranch_def
  storyTitle_def lodash_get_def array_find_def flatten_def

lemma example_post:
  "computeForLink exampleDeps ''post'' =
     Inr (Resolved (JStr ''A post'') (JStr ''https://www.instagram.com/p/abc/'')
            [Descriptor ''photo'' (JStr ''a.jpg'')])"
  by (simp add: resolver_simps example_simps eval_simps)

lemma example_both:
  "computeForLink exampleDeps ''both'' =
     Inr (Resolved (JStr ''A post'') (JStr ''https://www.instagram.com/p/abc/'')
            [Descriptor ''photo'' (JStr ''a.jpg'')])"
  by (simp add: resolver_simps example_simps eval_simps)

lemma example_empty_post:
  "resolveRaw exampleDeps emptyPostPage =
     Inr (JStr ''A post'', JStr ''https://www.instagram.com/p/abc/'', [])"
  by (simp add: resolver_simps example_simps eval_simps)

lemma example_post_raw:
  "resolveRaw exampleDeps postPage =
     Inr (JStr ''A post'', JStr ''https://www.instagram.com/p/abc/'', [imageRecord ''a.jpg''])"
  by (simp add: resolver_simps example_simps eval_simps)

text \<open>
  C3. When the page was opened and neither searcher finds a descriptor, the resolution
  ends with the error \<^verbatim>\<open>Unhandled page type\<close> (line 219; the switch reaches its default
  without any request). In a batch (run by the runner as modelled above, with any limit
  and any other links) this outcome is recorded for this link only: whatever has been
  recorded for the link is this failure, every recorded outcome is the one of its own
  link's resolution, a completed run has an outcome for every link, and until then the run
  can go on.
\<close>

theorem unhandled_page_type:
  assumes "newPage d link = Inr page"
    and "findPostData d (details page) = []" and "findStoryData d (details page) = []"
  shows "computeForLink d link = Inl (Error ''Unhandled page type'')
    \<and> (\<forall>N links s. 0 < N \<and> reachable N (computeForLink d) links s \<longrightarrow>
          (\<forall>r. (link, r) \<in> set (outcomes s) \<longrightarrow> r = Inl (Error ''Unhandled page type''))
          \<and> list_all (\<lambda>(x, r). r = computeForLink d x) (outcomes s)
          \<and> (complete s \<longrightarrow> mset (map fst (outcomes s)) = mset links)
          \<and> (\<not> complete s \<longrightarrow> (\<exists>s'. step N (computeForLink d) s s')))"
proof -
  have one: "computeForLink d link = Inl (Error ''Unhandled page type'')"
    using assms by (rule unhandled)
  have "(\<forall>r. (link, r) \<in> set (outcomes s) \<longrightarrow> r = Inl (Error ''Unhandled page type''))
          \<and> list_all (\<lambda>(x, r). r = computeForLink d x) (outcomes s)
          \<and> (complete s \<longrightarrow> mset (map fst (outcomes s)) = mset links)
          \<and> (\<not> complete s \<longrightarrow> (\<exists>s'. step N (computeForLink d) s s'))"
    if "0 < N" and r: "reachable N (computeForLink d) links s" for N links s
  proof -
    have all: "list_all (\<lambda>(x, r). r = computeForLink d x) (outcomes s)"
      using r by (rule reachable_outcomes)
    then have "r = Inl (Error ''Unhandled page type'')" if "(link, r) \<in> set (outcomes s)" for r
      using that one by (auto simp: list_all_iff)
    with all complete_outcomes(1) [OF r] progress [OF \<open>0 < N\<close>, of s "computeForLink d"]
    show ?thesis by blast
  qed
  with one show ?thesis by blast
qed

text \<open>
  A page with neither descriptor, resolved in a batch with a post: the completed run holds
  the failure for the one link and the resolved post for the other.
\<close>

theorem unhandled_page_type_witness:
  "computeForLink exampleDeps ''profile'' = Inl (Error ''Unhandled page type'')
   \<and> reachable concurrency (computeForLink exampleDeps) [''profile'', ''post'']
       \<lparr>queue = [], active = [],
        outcomes = [(''profile'', Inl (Error ''Unhandled page type'')),
                    (''post'', Inr (Resolved (JStr ''A post'')
                        (JStr ''https://www.instagram.com/p/abc/'')
                        [Descriptor ''photo'' (JStr ''a.jpg'')]))]\<rparr>
   \<and> list_all (\<lambda>(x, r). r = computeForLink exampleDeps x)
       [(''profile'', Inl (Error ''Unhandled page type'')),
        (''post'', Inr (Resolved (JStr ''A post'')
            (JStr ''https://www.instagram.com/p/abc/'')
            [Descriptor ''photo'' (JStr ''a.jpg'')]))]"
proof -
  have page: "newPage exampleDeps ''profile'' = Inr profilePage"
    by (simp add: exampleDeps_def exampleBrowser_def)
  have none: "findPostData exampleDeps (details profilePage) = []"
    "findStoryData exampleDeps (details profilePage) = []"
    by (simp_all add: example_simps dot_def string_prop_def parse_index_def digit_chars_def)
  note inst = unhandled_page_type [OF page none]
  from inst have bad: "computeForLink exampleDeps ''profile'' = Inl (Error ''Unhandled page type'')"
    by blast
  have pos: "0 < concurrency"
    by (simp add: concurrency_def)
  have run: "reachable concurrency (computeForLink exampleDeps) [''profile'', ''post'']
       \<lparr>queue = [], active = [],
        outcomes = [(''profile'', Inl (Error ''Unhandled page type'')),
                    (''post'', Inr (Resolved (JStr ''A post'')
                        (JStr ''https://www.instagram.com/p/abc/'')
                        [Descriptor ''photo'' (JStr ''a.jpg'')]))]\<rparr>"
    using run_two [of concurrency "computeForLink exampleDeps" "''profile''" "''post''"]
    by (simp add: concurrency_def bad example_post)
  from inst pos run have "list_all (\<lambda>(x, r). r = computeForLink exampleDeps x)
       (outcomes \<lparr>queue = [], active = ([] :: string list),
        outcomes = [(''profile'', Inl (Error ''Unhandled page type'')),
                    (''post'', Inr (Resolved (JStr ''A post'')
                        (JStr ''https://www.instagram.com/p/abc/'')
                        [Descriptor ''photo'' (JStr ''a.jpg'')]))]\<rparr>)"
    by blast
  with bad run show ?thesis
    by simp
qed

text \<open>
  C4. When the page was opened, classification and fetch gave a title, a url and a batch
  of records, and the normalizer returned a list for the batch, the resolution returns
  \<^verbatim>\<open>{ title, url, media }\<close> with that list if the list is not empty, and ends with the error
  \<^verbatim>\<open>No media found\<close> (line 248) if it is. Hence whatever \<^verbatim>\<open>computeForLink\<close> returns has a
  non-empty media list.
\<close>

theorem normalized_done:
  "(newPage d link = Inr page \<and> resolveRaw d page = Inr (title, url, rawMedia)
      \<and> flatten rawMedia = Inr media
    \<longrightarrow> computeForLink d link =
          (if media = [] then Inl (Error ''No media found'') else Inr (Resolved title url media)))
   \<and> (computeForLink d link = Inr (Resolved t u m) \<longrightarrow> m \<noteq> [])"
proof (intro conjI impI)
  assume "newPage d link = Inr page \<and> resolveRaw d page = Inr (title, url, rawMedia)
      \<and> flatten rawMedia = Inr media"
  then show "computeForLink d link =
      (if media = [] then Inl (Error ''No media found'') else Inr (Resolved title url media))"
    by (simp add: computeForLink_def)
next
  assume "computeForLink d link = Inr (Resolved t u m)"
  then show "m \<noteq> []"
    by (rule computeForLink_Inr)
qed

text \<open>A post whose endpoint answers with one image, and a post whose answer has no items.\<close>

theorem normalized_done_witness:
  "computeForLink exampleDeps ''post'' =
     Inr (Resolved (JStr ''A post'') (JStr ''https://www.instagram.com/p/abc/'')
            [Descriptor ''photo'' (JStr ''a.jpg'')])
   \<and> [Descriptor ''photo'' (JStr ''a.jpg'')] \<noteq> []
   \<and> computeForLink exampleDeps ''empty post'' = Inl (Error ''No media found'')"
proof -
  have p1: "newPage exampleDeps ''post'' = Inr postPage"
    and p2: "newPage exampleDeps ''empty post'' = Inr emptyPostPage"
    by (simp_all add: exampleDeps_def exampleBrowser_def)
  have f1: "flatten [imageRecord ''a.jpg''] = Inr [Descriptor ''photo'' (JStr ''a.jpg'')]"
    and f2: "flatten [] = Inr []"
    by (simp_all add: flatten_def imageRecord_def eval_simps)
  from normalized_done [of exampleDeps "''post''" postPage "JStr ''A post''"
      "JStr ''https://www.instagram.com/p/abc/''" "[imageRecord ''a.jpg'']"
      "[Descriptor ''photo'' (JStr ''a.jpg'')]" "JStr ''A post''"
      "JStr ''https://www.instagram.com/p/abc/''" "[Descriptor ''photo'' (JStr ''a.jpg'')]"]
    p1 example_post_raw f1
  have a: "computeForLink exampleDeps ''post'' =
     Inr (Resolved (JStr ''A post'') (JStr ''https://www.instagram.com/p/abc/'')
            [Descriptor ''photo'' (JStr ''a.jpg'')])
     \<and> [Descriptor ''photo'' (JStr ''a.jpg'')] \<noteq> []"
    by simp
  from normalized_done [of exampleDeps "''empty post''" emptyPostPage "JStr ''A post''"
      "JStr ''https://www.instagram.com/p/abc/''" "[]" "[]"] p2 example_empty_post f2
  have "computeForLink exampleDeps ''empty post'' = Inl (Error ''No media found'')"
    by simp
  with a show ?thesis by simp
qed

text \<open>
  C5, as amended. When the page has a post descriptor that carries a \<^verbatim>\<open>meta\<close> object, and
  the rest of the resolution goes through (the descriptor's \<^verbatim>\<open>url\<close> and media id convert
  to strings, the endpoint answers with a list of items, and the normalizer returns a
  non-empty list for them), the resolution returns a result whose title is the
  descriptor's \<^verbatim>\<open>meta.title\<close> if that is neither missing nor \<^verbatim>\<open>null\<close>, and \<^verbatim>\<open>null\<close>
  otherwise, and whose url is \<^verbatim>\<open>https://www.instagram.com\<close> followed by the descriptor's
  \<^verbatim>\<open>url\<close>; title and url stand so already after classification and fetch.
\<close>

theorem post_title_and_url:
  assumes page: "newPage d link = Inr page"
    and pd: "postData = first (findPostData d (details page))"
    and post: "truthy postData"
    and meta: "\<not> nullish (dot postData ''meta'')"
    and path: "to_string (dot postData ''url'') = Inr path"
    and props: "\<not> nullish (dot postData ''rootView'')"
      "\<not> nullish (dot (dot postData ''rootView'') ''props'')"
    and mid: "to_string (dot (dot (dot postData ''rootView'') ''props'') ''media_id'') = Inr mid"
    and data: "fetch page (''https://i.instagram.com/api/v1/media/'' @ mid @ ''/info/'') = Inr data"
    and items: "\<not> nullish data" "iterate (dot data ''items'') = Inr rawMedia"
    and media: "flatten rawMedia = Inr media" "media \<noteq> []"
  shows "resolveRaw d page =
        Inr (if nullish (dot (dot postData ''meta'') ''title'') then JNull
             else dot (dot postData ''meta'') ''title'',
             JStr (''https://www.instagram.com'' @ path), rawMedia)
    \<and> computeForLink d link =
        Inr (Resolved
              (if nullish (dot (dot postData ''meta'') ''title'') then JNull
               else dot (dot postData ''meta'') ''title'')
              (JStr (''https://www.instagram.com'' @ path)) media)"
proof -
  let ?title = "if nullish (dot (dot postData ''meta'') ''title'') then JNull
                else dot (dot postData ''meta'') ''title''"
  have nn: "\<not> nullish postData"
    using post by (simp add: truthy_not_nullish)
  have "resolveRaw d page = postBranch page postData ?title"
    using resolveRaw_post [of d page] post initialTitle_total [OF nn meta]
    by (simp add: pd)
  also have "\<dots> = Inr (?title, JStr (''https://www.instagram.com'' @ path), rawMedia)"
    using nn path props mid data items by (simp add: postBranch_def get_prop_dot)
  finally have raw: "resolveRaw d page =
      Inr (?title, JStr (''https://www.instagram.com'' @ path), rawMedia)" .
  then have "computeForLink d link =
      Inr (Resolved ?title (JStr (''https://www.instagram.com'' @ path)) media)"
    using page media by (simp add: computeForLink_def)
  with raw show ?thesis by simp
qed

text \<open>
  Three posts: one with a title, one whose \<^verbatim>\<open>meta\<close> has no title, one whose title is
  \<^verbatim>\<open>null\<close>. The last two resolve with the title \<^verbatim>\<open>null\<close>.
\<close>

theorem post_title_and_url_witness:
  "computeForLink exampleDeps ''post'' =
     Inr (Resolved (JStr ''A post'') (JStr ''https://www.instagram.com/p/abc/'')
            [Descriptor ''photo'' (JStr ''a.jpg'')])
   \<and> computeForLink (depsFor (postPageOf (postDescriptorWith [(''meta'', JObj [])]))) ''post'' =
     Inr (Resolved JNull (JStr ''https://www.instagram.com/p/abc/'')
            [Descriptor ''photo'' (JStr ''a.jpg'')])
   \<and> computeForLink
       (depsFor (postPageOf (postDescriptorWith [(''meta'', JObj [(''title'', JNull)])]))) ''post'' =
     Inr (Resolved JNull (JStr ''https://www.instagram.com/p/abc/'')
            [Descriptor ''photo'' (JStr ''a.jpg'')])"
proof -
  have flat: "flatten [imageRecord ''a.jpg''] = Inr [Descriptor ''photo'' (JStr ''a.jpg'')]"
    by (simp add: flatten_def imageRecord_def eval_simps)
  have a: "computeForLink exampleDeps ''post'' =
     Inr (Resolved (JStr ''A post'') (JStr ''https://www.instagram.com/p/abc/'')
            [Descriptor ''photo'' (JStr ''a.jpg'')])"
    using flat post_title_and_url [where d = exampleDeps and link = "''post''" and page = postPage
        and postData = postDescriptor and path = "''/p/abc/''" and mid = "''123''"
        and data = "JObj [(''items'', JArr [imageRecord ''a.jpg''])]"
        and rawMedia = "[imageRecord ''a.jpg'']"
        and media = "[Descriptor ''photo'' (JStr ''a.jpg'')]"]
    by (simp add: exampleDeps_def exampleBrowser_def postPage_def exampleSearcher_def
        exampleFetch_def postDescriptor_def first_def dot_def string_prop_def parse_index_def
        digit_chars_def)
  have b: "computeForLink (depsFor (postPageOf (postDescriptorWith [(''meta'', JObj [])]))) ''post'' =
     Inr (Resolved JNull (JStr ''https://www.instagram.com/p/abc/'')
            [Descriptor ''photo'' (JStr ''a.jpg'')])"
    using flat post_title_and_url [where d = "depsFor (postPageOf (postDescriptorWith [(''meta'', JObj [])]))"
        and link = "''post''" and page = "postPageOf (postDescriptorWith [(''meta'', JObj [])])"
        and postData = "postDescriptorWith [(''meta'', JObj [])]"
        and path = "''/p/abc/''" and mid = "''123''"
        and data = "JObj [(''items'', JArr [imageRecord ''a.jpg''])]"
        and rawMedia = "[imageRecord ''a.jpg'']"
        and media = "[Descriptor ''photo'' (JStr ''a.jpg'')]"]
    by (simp add: depsFor_def exampleDeps_def postPageOf_def exampleSearcher_def
        exampleFetch_def postDescriptorWith_def first_def dot_def)
  have c: "computeForLink
       (depsFor (postPageOf (postDescriptorWith [(''meta'', JObj [(''title'', JNull)])]))) ''post'' =
     Inr (Resolved JNull (JStr ''https://www.instagram.com/p/abc/'')
            [Descriptor ''photo'' (JStr ''a.jpg'')])"
    using flat post_title_and_url
       [where d = "depsFor (postPageOf (postDescriptorWith [(''meta'', JObj [(''title'', JNull)])]))"
        and link = "''post''"
        and page = "postPageOf (postDescriptorWith [(''meta'', JObj [(''title'', JNull)])])"
        and postData = "postDescriptorWith [(''meta'', JObj [(''title'', JNull)])]"
        and path = "''/p/abc/''" and mid = "''123''"
        and data = "JObj [(''items'', JArr [imageRecord ''a.jpg''])]"
        and rawMedia = "[imageRecord ''a.jpg'']"
        and media = "[Descriptor ''photo'' (JStr ''a.jpg'')]"]
    by (simp add: depsFor_def exampleDeps_def postPageOf_def exampleSearcher_def
        exampleFetch_def postDescriptorWith_def first_def dot_def)
  from a b c show ?thesis by simp
qed

text \<open>
  C5 as first stated fails on a post descriptor that has no \<^verbatim>\<open>meta\<close> object: its title is
  not present, yet the resolution does not return a result with the title \<^verbatim>\<open>null\<close>. Line
  155 guards only \<^verbatim>\<open>postData\<close> itself, reading \<^verbatim>\<open>title\<close> of the missing \<^verbatim>\<open>meta\<close> raises, and
  the link fails with a \<open>TypeError\<close>, although the endpoint would answer with an image.
\<close>

theorem post_without_meta_counterexample:
  "truthy (postDescriptorWith [])
   \<and> dot (postDescriptorWith []) ''meta'' = JUndefined
   \<and> initialTitle (postDescriptorWith []) = Inl TypeError
   \<and> computeForLink (depsFor (postPageOf (postDescriptorWith []))) ''post'' = Inl TypeError"
  by (simp add: resolver_simps example_simps eval_simps)




text \<open>
  C10. When the page has both a post descriptor and a story descriptor, the resolution is
  that of a post: classification and fetch are the title of line 155 followed by the post
  case, and the result of \<^verbatim>\<open>computeForLink\<close> stays the same whatever the story searcher
  finds and however the library splits paths (which only the story case uses).
\<close>

theorem post_precedence:
  assumes "newPage d link = Inr page"
    and "truthy (first (findPostData d (details page)))"
    and "truthy (first (findStoryData d (details page)))"
  shows "resolveRaw d page =
      and_then (initialTitle (first (findPostData d (details page))))
        (postBranch page (first (findPostData d (details page))))
    \<and> computeForLink (d\<lparr>findStoryData := searcher, castPath := splitter\<rparr>) link
        = computeForLink d link"
  using assms by (simp add: resolveRaw_post computeForLink_def)

text \<open>A page whose data holds the story descriptor before the post descriptor.\<close>

theorem post_precedence_witness:
  "first (findStoryData exampleDeps (details bothPage)) = storyDescriptor
   \<and> first (findPostData exampleDeps (details bothPage)) = postDescriptor
   \<and> computeForLink (exampleDeps\<lparr>findStoryData := (\<lambda>v. []), castPath := (\<lambda>p v. [])\<rparr>) ''both''
       = Inr (Resolved (JStr ''A post'') (JStr ''https://www.instagram.com/p/abc/'')
               [Descriptor ''photo'' (JStr ''a.jpg'')])
   \<and> computeForLink exampleDeps ''both''
       = Inr (Resolved (JStr ''A post'') (JStr ''https://www.instagram.com/p/abc/'')
               [Descriptor ''photo'' (JStr ''a.jpg'')])"
proof -
  have page: "newPage exampleDeps ''both'' = Inr bothPage"
    by (simp add: exampleDeps_def exampleBrowser_def)
  have sd: "first (findStoryData exampleDeps (details bothPage)) = storyDescriptor"
    and pd: "first (findPostData exampleDeps (details bothPage)) = postDescriptor"
    by (simp_all add: example_simps first_def dot_def)
  have tr: "truthy (first (findPostData exampleDeps (details bothPage)))"
    "truthy (first (findStoryData exampleDeps (details bothPage)))"
    unfolding sd pd by (simp_all add: postDescriptor_def storyDescriptor_def)
  from post_precedence [OF page tr, where searcher = "\<lambda>v. []" and splitter = "\<lambda>p v. []"] example_both sd pd
  show ?thesis by simp
qed


end
